theory Spec2Isabelle
  imports Complex_Main "HOL-Library.Word"
begin

section \<open>JavaScript values and objects\<close>

text \<open>
  The request body is what the JSON body parser delivers: an object whose properties
  hold JSON values. Reading a property that the object does not have yields
  \<open>undefined\<close>, so \<open>undefined\<close> is a value of its own. A finite JSON number is a
  rational. An object keeps its keys in insertion order, so it is an association list;
  the keys of an object are distinct, and where a list repeats a key its first entry is
  the property.
\<close>

datatype jsval =
    JUndefined
  | JNull
  | JBool bool
  | JNum rat
  | JStr string
  | JArr "jsval list"
  | JObj "(string \<times> jsval) list"

type_synonym js_object = "(string \<times> jsval) list"

definition get_prop :: "js_object \<Rightarrow> string \<Rightarrow> jsval" where
  "get_prop obj k = (case map_of obj k of None \<Rightarrow> JUndefined | Some v \<Rightarrow> v)"

definition object_keys :: "(string \<times> 'a) list \<Rightarrow> string list" where
  "object_keys obj = map fst obj"

section \<open>The world a request runs in\<close>

text \<open>
  A row of the user table. The columns hold the values the store was handed; \<open>null\<close>
  stands for an absent value.
\<close>

record user_row =
  id_col :: nat
  username_col :: jsval
  email_col :: jsval
  password_col :: jsval
  inactive_col :: jsval
  activationToken_col :: jsval

text \<open>
  An activation mail: the address it goes to and the token value its text carries
  literally.
\<close>

record message =
  recipient :: jsval
  carried_token :: jsval

text \<open>
  The trace is ghost state: it records, in order, every object handed to the store for
  creation, every row the store persisted and every invocation of the email dispatcher,
  so that claims about what reaches the store and about ordering can be stated.
\<close>

datatype event = StoreCreate "(string \<times> jsval) list" | Persisted user_row | Dispatched message

record world =
  users :: "user_row list"
  next_id :: nat
  trace :: "event list"

definition empty_world :: world where
  "empty_world = \<lparr>users = [], next_id = 1, trace = []\<rparr>"

text \<open>
  What one call of \<open>save\<close> receives from outside the program: the result of
  \<open>bcrypt.hash(s, rounds)\<close> for this call (the salt is drawn inside the library), the
  bytes the system's secure random source delivers, and whether the mail transport
  accepts a message.
\<close>

record env =
  bcrypt :: "string \<Rightarrow> nat \<Rightarrow> string"
  entropy :: "nat \<Rightarrow> 8 word"
  transport_ok :: "message \<Rightarrow> bool"

datatype error =
    IllegalArguments
  | UniqueConstraintError
  | TransportError
  | InvalidToken

section \<open>UserService.js\<close>

subsection \<open>generateToken\<close>

text \<open>
  \<^verbatim>\<open>crypto.randomBytes(length).toString('hex').substring(0, length)\<close>

  \<open>randomBytes n\<close> is a buffer of exactly \<open>n\<close> bytes read from the random source.
  \<open>toString('hex')\<close> writes every byte as two lowercase hexadecimal digits, high nibble
  first. \<open>substring(a, b)\<close> swaps its arguments when \<open>a > b\<close> and stops at the end of
  the string.
\<close>

definition randomBytes :: "(nat \<Rightarrow> 8 word) \<Rightarrow> nat \<Rightarrow> 8 word list" where
  "randomBytes src n = map src [0..<n]"

definition hex_digit :: "nat \<Rightarrow> char" where
  "hex_digit n = ''0123456789abcdef'' ! (n mod 16)"

definition hex_byte :: "8 word \<Rightarrow> string" where
  "hex_byte b = [hex_digit (unat b div 16), hex_digit (unat b mod 16)]"

definition toString_hex :: "8 word list \<Rightarrow> string" where
  "toString_hex bs = concat (map hex_byte bs)"

definition substring :: "string \<Rightarrow> nat \<Rightarrow> nat \<Rightarrow> string" where
  "substring s a b = (let lo = min a b; hi = max a b in take (hi - lo) (drop lo s))"

definition generateToken :: "(nat \<Rightarrow> 8 word) \<Rightarrow> nat \<Rightarrow> string" where
  "generateToken src len = substring (toString_hex (randomBytes src len)) 0 len"

subsection \<open>Collaborators of save\<close>

text \<open>
  \<open>bcrypt.hash\<close> rejects when its first argument is not a string; otherwise it resolves
  to the hash.
\<close>

definition bcrypt_hash :: "env \<Rightarrow> jsval \<Rightarrow> nat \<Rightarrow> error + string" where
  "bcrypt_hash e v rounds =
     (case v of JStr s \<Rightarrow> Inr (bcrypt e s rounds) | _ \<Rightarrow> Inl IllegalArguments)"

definition stored :: "jsval \<Rightarrow> jsval" where
  "stored v = (if v = JUndefined then JNull else v)"

definition email_taken :: "jsval \<Rightarrow> user_row list \<Rightarrow> bool" where
  "email_taken e rows = (e \<noteq> JNull \<and> list_ex (\<lambda>r. email_col r = e) rows)"

text \<open>
  Modelled from the spec: \<open>User.create\<close>, the user model is not among the sources. The
  store holds id, username, email (unique), hashed password, an inactive flag and an
  optional activation token. The id is assigned on creation; \<open>inactive\<close> defaults to
  \<open>true\<close>, a default being the value of an attribute the caller did not supply; a
  missing token is absent (\<open>null\<close>); email uniqueness is enforced at persistence time.
\<close>

definition User_create :: "js_object \<Rightarrow> world \<Rightarrow> (error + user_row) \<times> world" where
  "User_create attrs w =
     (let row = \<lparr>id_col = next_id w,
                 username_col = stored (get_prop attrs ''username''),
                 email_col = stored (get_prop attrs ''email''),
                 password_col = stored (get_prop attrs ''password''),
                 inactive_col = (case get_prop attrs ''inactive'' of
                               JUndefined \<Rightarrow> JBool True
                             | v \<Rightarrow> v),
                 activationToken_col = stored (get_prop attrs ''activationToken'')\<rparr>
      in if email_taken (email_col row) (users w)
         then (Inl UniqueConstraintError, w\<lparr>trace := trace w @ [StoreCreate attrs]\<rparr>)
         else (Inr row,
               w\<lparr>users := users w @ [row],
                  next_id := Suc (next_id w),
                  trace := trace w @ [StoreCreate attrs, Persisted row]\<rparr>))"

text \<open>
  Modelled from the spec: \<open>EmailService.sendAccountActivation\<close>, the email service is
  not among the sources. It sends a single message to \<open>email\<close> containing the literal
  token value; there is one attempt and no retry, and a failure of the transport is
  raised to the caller.
\<close>

definition sendAccountActivation ::
    "env \<Rightarrow> jsval \<Rightarrow> jsval \<Rightarrow> world \<Rightarrow> (error + unit) \<times> world" where
  "sendAccountActivation e addr tok w =
     (let m = \<lparr>recipient = addr, carried_token = tok\<rparr>;
          w' = w\<lparr>trace := trace w @ [Dispatched m]\<rparr>
      in if transport_ok e m then (Inr (), w') else (Inl TransportError, w'))"

subsection \<open>save\<close>

text \<open>
  \<^verbatim>\<open>
  const save = async (body) => {
    const { username, email, password } = body;
    const hash = await bcrypt.hash(password, 10);
    const user = { username, email, password: hash,
                   activationToken: generateToken(16) };
    await User.create(user);
    await EmailService.sendAccountActivation(email, user.activationToken);
  };
  \<close>
  Each \<open>await\<close> of a rejected promise leaves the function at once with that error;
  there is no handler in \<open>save\<close>.
\<close>

definition new_user :: "jsval \<Rightarrow> jsval \<Rightarrow> string \<Rightarrow> string \<Rightarrow> js_object" where
  "new_user username email hash tok =
     [(''username'', username),
      (''email'', email),
      (''password'', JStr hash),
      (''activationToken'', JStr tok)]"

definition save :: "env \<Rightarrow> js_object \<Rightarrow> world \<Rightarrow> (error + unit) \<times> world" where
  "save e body w =
     (let username = get_prop body ''username'';
          email = get_prop body ''email'';
          password = get_prop body ''password''
      in case bcrypt_hash e password 10 of
           Inl err \<Rightarrow> (Inl err, w)
         | Inr hash \<Rightarrow>
             (let user = new_user username email hash (generateToken (entropy e) 16)
              in case User_create user w of
                   (Inl err, w1) \<Rightarrow> (Inl err, w1)
                 | (Inr _, w1) \<Rightarrow>
                     sendAccountActivation e email (get_prop user ''activationToken'') w1))"

subsection \<open>findByEmail\<close>

text \<open>\<^verbatim>\<open>User.findOne({ where: { email: email } })\<close>: the first row with that email, if any.\<close>

definition findByEmail :: "jsval \<Rightarrow> world \<Rightarrow> user_row option" where
  "findByEmail addr w = find (\<lambda>r. email_col r = addr) (users w)"

section \<open>Account activation\<close>

datatype msg_key =
    username_null | username_size
  | email_null | email_invalid | email_inuse
  | password_null | password_size | password_pattern
  | user_create_success | email_failure | validation_failure
  | account_activation_success | account_activation_failure

text \<open>The English catalog, as the test suite quotes it.\<close>

definition en :: "msg_key \<Rightarrow> string" where
  "en k =
     (case k of
        username_null \<Rightarrow> ''Username cannot be null''
      | username_size \<Rightarrow> ''Must have minimum 4 and max 32 characters''
      | email_null \<Rightarrow> ''Email cannot be null''
      | email_invalid \<Rightarrow> ''Email is invalid''
      | email_inuse \<Rightarrow> ''Email is in use''
      | password_null \<Rightarrow> ''Password cannot be null''
      | password_size \<Rightarrow> ''Password must be at least 6 characters''
      | password_pattern \<Rightarrow>
          ''Password must have at least 1 uppercase, 1 lowercase letter and 1 number''
      | user_create_success \<Rightarrow> ''User created''
      | email_failure \<Rightarrow> ''Email Failure''
      | validation_failure \<Rightarrow> ''Validation Failure''
      | account_activation_success \<Rightarrow> ''Account is activated''
      | account_activation_failure \<Rightarrow>
          ''This account is either active or the token is invalid'')"

record response =
  status_code :: nat
  json :: "(string \<times> jsval) list"

text \<open>
  Modelled from the spec: the lookup of a user by token, part of the activation handler,
  which is not among the sources. A row matches when its token is the presented string.
\<close>

definition holds_token :: "string \<Rightarrow> user_row \<Rightarrow> bool" where
  "holds_token t u = (activationToken_col u = JStr t)"

text \<open>
  Modelled from the spec: the transition of the activation handler, which is not among
  the sources: clear token, set inactive=false. A cleared token is absent (\<open>null\<close>).
\<close>

definition activated :: "user_row \<Rightarrow> user_row" where
  "activated u = u\<lparr>inactive_col := JBool False, activationToken_col := JNull\<rparr>"

text \<open>
  Modelled from the spec: lookup and persist of the activation handler, which is not
  among the sources. The lookup yields one user, the first row that holds the token;
  the changed row is written back in its place. \<open>None\<close> when no row holds the token.
\<close>

fun activate_first :: "string \<Rightarrow> user_row list \<Rightarrow> user_row list option" where
  "activate_first t [] = None"
| "activate_first t (u # us) =
     (if holds_token t u then Some (activated u # us)
      else map_option ((#) u) (activate_first t us))"

text \<open>
  Modelled from the spec: the activation operation, which is not among the sources.
  Lookup user by token. If found: clear token, set inactive=false, persist. If not
  found: no state change, and the invalid-token error.
\<close>

definition activate :: "string \<Rightarrow> world \<Rightarrow> (error + unit) \<times> world" where
  "activate t w =
     (case activate_first t (users w) of
        None \<Rightarrow> (Inl InvalidToken, w)
      | Some us \<Rightarrow> (Inr (), w\<lparr>users := us\<rparr>))"

text \<open>
  Modelled from the spec: the body of an error that is not a validation error, made in
  an error handler that is not among the sources: exactly the keys path, timestamp
  (milliseconds since epoch) and message.
\<close>

definition error_body :: "string \<Rightarrow> nat \<Rightarrow> string \<Rightarrow> (string \<times> jsval) list" where
  "error_body path now msg =
     [(''path'', JStr path), (''timestamp'', JNum (of_nat now)), (''message'', JStr msg)]"

text \<open>
  Modelled from the spec: the answers of \<open>POST /api/1.0/users/token/:token\<close>, whose
  handler is not among the sources. A token that matches no user is status 400 with
  the one generic invalid-token message; success is status 200 with the localized
  success message. \<open>tr\<close> is the message catalog of the request's locale and \<open>now\<close>
  the time of the response.
\<close>

definition invalid_token_response :: "(msg_key \<Rightarrow> string) \<Rightarrow> nat \<Rightarrow> string \<Rightarrow> response" where
  "invalid_token_response tr now t =
     \<lparr>status_code = 400,
      json = error_body (''/api/1.0/users/token/'' @ t) now (tr account_activation_failure)\<rparr>"

definition activated_response :: "(msg_key \<Rightarrow> string) \<Rightarrow> response" where
  "activated_response tr =
     \<lparr>status_code = 200, json = [(''message'', JStr (tr account_activation_success))]\<rparr>"

text \<open>
  Modelled from the spec: the handler of \<open>POST /api/1.0/users/token/:token\<close>, which is
  not among the sources: it runs the activation operation and maps its outcome to the
  answer.
\<close>

definition activation_handler ::
    "(msg_key \<Rightarrow> string) \<Rightarrow> nat \<Rightarrow> string \<Rightarrow> world \<Rightarrow> response \<times> world" where
  "activation_handler tr now t w =
     (case activate t w of
        (Inr _, w') \<Rightarrow> (activated_response tr, w')
      | (Inl _, w') \<Rightarrow> (invalid_token_response tr now t, w'))"

section \<open>Validation of the creation payload\<close>

text \<open>
  The payload as validation sees it: each of the three fields is a string or \<open>null\<close>.
\<close>

record signup =
  username_in :: "string option"
  email_in :: "string option"
  password_in :: "string option"

definition missing :: "string option \<Rightarrow> bool" where
  "missing v = (v = None)"

definition fails :: "(string \<Rightarrow> bool) \<Rightarrow> string option \<Rightarrow> bool" where
  "fails ok v = (case v of None \<Rightarrow> False | Some s \<Rightarrow> \<not> ok s)"

definition password_mix :: "string \<Rightarrow> bool" where
  "password_mix s =
     (list_ex (\<lambda>c. c \<in> set ''abcdefghijklmnopqrstuvwxyz'') s \<and>
      list_ex (\<lambda>c. c \<in> set ''ABCDEFGHIJKLMNOPQRSTUVWXYZ'') s \<and>
      list_ex (\<lambda>c. c \<in> set ''0123456789'') s)"

text \<open>
  Modelled from the spec: the validation layer, which is not among the sources. The
  table of section 4.3, row by row in its order: the field, the message key, and
  whether the payload violates the rule. A rule on the value of a field applies when
  the field is not \<open>null\<close>. What counts as a syntactically valid address is left to
  \<open>address_ok\<close>; whether an email is registered is the lookup \<open>findByEmail\<close>.
\<close>

definition rules ::
    "(string \<Rightarrow> bool) \<Rightarrow> world \<Rightarrow> signup \<Rightarrow> (string \<times> msg_key \<times> bool) list" where
  "rules address_ok w p =
     [(''username'', username_null, missing (username_in p)),
      (''username'', username_size,
         fails (\<lambda>s. 4 \<le> length s \<and> length s \<le> 32) (username_in p)),
      (''email'', email_null, missing (email_in p)),
      (''email'', email_invalid, fails address_ok (email_in p)),
      (''email'', email_inuse, fails (\<lambda>s. findByEmail (JStr s) w = None) (email_in p)),
      (''password'', password_null, missing (password_in p)),
      (''password'', password_size, fails (\<lambda>s. 6 \<le> length s) (password_in p)),
      (''password'', password_pattern, fails password_mix (password_in p))]"

text \<open>
  Modelled from the spec: all rules are evaluated and every violation is collected, in
  the order of the table; the violations are then merged into an order-preserving
  mapping keyed by field name. The spec does not say which message a field with
  several violated rules keeps; here it keeps the first. The keys and their order do
  not depend on that choice.
\<close>

definition violations :: "(string \<times> msg_key \<times> bool) list \<Rightarrow> (string \<times> msg_key) list" where
  "violations rs = map (\<lambda>(f, k, bad). (f, k)) (filter (\<lambda>(f, k, bad). bad) rs)"

definition add_error ::
    "(string \<times> msg_key) list \<Rightarrow> string \<times> msg_key \<Rightarrow> (string \<times> msg_key) list" where
  "add_error m v = (if fst v \<in> set (object_keys m) then m else m @ [v])"

definition validationErrors ::
    "(string \<Rightarrow> bool) \<Rightarrow> world \<Rightarrow> signup \<Rightarrow> (string \<times> msg_key) list" where
  "validationErrors address_ok w p = foldl add_error [] (violations (rules address_ok w p))"

definition field_violated :: "(string \<Rightarrow> bool) \<Rightarrow> world \<Rightarrow> signup \<Rightarrow> string \<Rightarrow> bool" where
  "field_violated address_ok w p f =
     list_ex (\<lambda>(g, k, bad). g = f \<and> bad) (rules address_ok w p)"

section \<open>The two user states and the reachable stores\<close>

definition pending :: "user_row \<Rightarrow> bool" where
  "pending u =
     (inactive_col u = JBool True \<and>
      (case activationToken_col u of JStr t \<Rightarrow> t \<noteq> [] | _ \<Rightarrow> False))"

definition active :: "user_row \<Rightarrow> bool" where
  "active u =
     (inactive_col u = JBool False \<and>
      (activationToken_col u = JNull \<or> activationToken_col u = JStr []))"

definition store_inv :: "world \<Rightarrow> bool" where
  "store_inv w = list_all (\<lambda>u. pending u = (\<not> active u)) (users w)"

text \<open>
  The stores the system can be in: the empty store, and what a registration (any body,
  any outcome of hashing, randomness and mail transport) or an activation request (any
  token) leaves behind.
\<close>

inductive reachable :: "world \<Rightarrow> bool" where
  init: "reachable empty_world"
| registration: "reachable w \<Longrightarrow> reachable (snd (save e body w))"
| activation: "reachable w \<Longrightarrow> reachable (snd (activation_handler tr now t w))"

definition events_since :: "world \<Rightarrow> world \<Rightarrow> event list" where
  "events_since w w' = drop (length (trace w)) (trace w')"

fun dispatches :: "event list \<Rightarrow> message list" where
  "dispatches [] = []"
| "dispatches (Dispatched m # evs) = m # dispatches evs"
| "dispatches (_ # evs) = dispatches evs"

section \<open>What one call of save does, spelled out\<close>

text \<open>
  The object \<open>save\<close> hands to the store, the row the store makes of it, and the mail
  the dispatcher is asked to send, for a body whose password is the string \<open>p\<close>.
\<close>

definition created_attrs :: "env \<Rightarrow> js_object \<Rightarrow> string \<Rightarrow> js_object" where
  "created_attrs e body p =
     new_user (get_prop body ''username'') (get_prop body ''email'') (bcrypt e p 10)
       (generateToken (entropy e) 16)"

definition created_row :: "env \<Rightarrow> js_object \<Rightarrow> string \<Rightarrow> world \<Rightarrow> user_row" where
  "created_row e body p w =
     \<lparr>id_col = next_id w,
      username_col = stored (get_prop body ''username''),
      email_col = stored (get_prop body ''email''),
      password_col = JStr (bcrypt e p 10),
      inactive_col = JBool True,
      activationToken_col = JStr (generateToken (entropy e) 16)\<rparr>"

definition sent_message :: "env \<Rightarrow> js_object \<Rightarrow> message" where
  "sent_message e body =
     \<lparr>recipient = get_prop body ''email'',
      carried_token = JStr (generateToken (entropy e) 16)\<rparr>"

text \<open>The body cut down to the three properties that \<open>save\<close> reads.\<close>

definition strip_body :: "js_object \<Rightarrow> js_object" where
  "strip_body body =
     [(''username'', get_prop body ''username''),
      (''email'', get_prop body ''email''),
      (''password'', get_prop body ''password'')]"

section \<open>Concrete requests\<close>

text \<open>
  The valid signup of the test suite, and an environment whose hash and random bytes are
  fixed stand-ins, with a mail transport that accepts or rejects every message.
\<close>

definition example_env :: env where
  "example_env =
     \<lparr>bcrypt = (\<lambda>p rounds. ''$2a$10$'' @ p),
      entropy = (\<lambda>i. of_nat (17 * i + 171)),
      transport_ok = (\<lambda>m. True)\<rparr>"

definition failing_mail_env :: env where
  "failing_mail_env = example_env\<lparr>transport_ok := (\<lambda>m. False)\<rparr>"

definition valid_user :: js_object where
  "valid_user =
     [(''username'', JStr ''user1''),
      (''email'', JStr ''user1@example.com''),
      (''password'', JStr ''Pass1234'')]"

text \<open>
  The same signup with three more properties supplied by the client, and the store after
  the valid signup went through.
\<close>

definition tampered_user :: js_object where
  "tampered_user =
     (''id'', JNum 7) # (''activationToken'', JStr ''chosen-by-client'') #
     (''inactive'', JBool False) # valid_user"

definition registered_world :: world where
  "registered_world = snd (save example_env valid_user empty_world)"

text \<open>The store of the valid signup after one activation request with its token.\<close>

definition activated_world :: world where
  "activated_world = snd (activation_handler en 0 ''abbccddeef001122'' registered_world)"

text \<open>
  The payload of the test "returns errors for both when username and email is null",
  and a plain stand-in for the address syntax.
\<close>

definition simple_address :: "string \<Rightarrow> bool" where
  "simple_address s =
     (CHR ''@'' \<in> set s \<and> CHR ''.'' \<in> set (dropWhile (\<lambda>c. c \<noteq> CHR ''@'') s))"

definition null_name_and_email :: signup where
  "null_name_and_email =
     \<lparr>username_in = None, email_in = None, password_in = Some ''Pass1234''\<rparr>"

section \<open>Properties of generateToken\<close>

lemma length_randomBytes: "length (randomBytes src n) = n"
  by (simp add: randomBytes_def)

lemma length_toString_hex: "length (toString_hex bs) = 2 * length bs"
  by (induction bs) (simp_all add: toString_hex_def hex_byte_def)

lemma hex_digit_in: "hex_digit n \<in> set ''0123456789abcdef''"
proof -
  have "n mod 16 < length ''0123456789abcdef''" by simp
  then show ?thesis unfolding hex_digit_def by (rule nth_mem)
qed

lemma set_toString_hex: "set (toString_hex bs) \<subseteq> set ''0123456789abcdef''"
  unfolding toString_hex_def hex_byte_def using hex_digit_in by auto

lemma generateToken_take: "generateToken src n = take n (toString_hex (randomBytes src n))"
  by (simp add: generateToken_def substring_def)

lemma length_generateToken: "length (generateToken src n) = n"
  by (simp add: generateToken_take length_toString_hex length_randomBytes)

lemma set_generateToken: "set (generateToken src n) \<subseteq> set ''0123456789abcdef''"
  unfolding generateToken_take using set_toString_hex set_take_subset by fast

text \<open>The hexadecimal writing loses nothing: different bytes are written differently.\<close>

lemma hex_digit_inj:
  assumes "m < 16" "n < 16" "hex_digit m = hex_digit n"
  shows "m = n"
proof -
  have d: "distinct ''0123456789abcdef''" by simp
  have "m < length ''0123456789abcdef''" "n < length ''0123456789abcdef''"
    using assms by simp_all
  moreover have "''0123456789abcdef'' ! m = ''0123456789abcdef'' ! n"
    using assms by (simp add: hex_digit_def)
  ultimately show ?thesis using d by (simp only: nth_eq_iff_index_eq)
qed

lemma hex_byte_inj: "hex_byte a = hex_byte b \<Longrightarrow> a = b"
proof -
  assume eq: "hex_byte a = hex_byte b"
  have "unat a < 2 ^ LENGTH(8)" "unat b < 2 ^ LENGTH(8)"
    by (rule unsigned_less)+
  then have la: "unat a < 256" and lb: "unat b < 256" by simp_all
  then have "unat a div 16 < 16" "unat b div 16 < 16" "unat a mod 16 < 16" "unat b mod 16 < 16"
    by simp_all
  with eq have "unat a div 16 = unat b div 16" "unat a mod 16 = unat b mod 16"
    by (auto simp add: hex_byte_def intro: hex_digit_inj)
  then have "unat a = unat b"
    by (metis div_mult_mod_eq)
  then show ?thesis by (simp add: word_unat_eq_iff)
qed

lemma toString_hex_Cons: "toString_hex (b # bs) = hex_byte b @ toString_hex bs"
  by (simp add: toString_hex_def)

lemma toString_hex_append: "toString_hex (xs @ ys) = toString_hex xs @ toString_hex ys"
  by (simp add: toString_hex_def)

lemma toString_hex_inj: "toString_hex xs = toString_hex ys \<Longrightarrow> xs = ys"
proof (induction xs arbitrary: ys)
  case Nil
  then have "length (toString_hex ys) = 0" by (simp add: toString_hex_def)
  then show ?case by (simp add: length_toString_hex)
next
  case (Cons x xs)
  from Cons.prems have "length (toString_hex ys) = 2 * Suc (length xs)"
    by (metis length_toString_hex length_Cons)
  then obtain y ys' where ys: "ys = y # ys'"
    by (cases ys) (simp_all add: length_toString_hex)
  from Cons.prems ys have "hex_byte x @ toString_hex xs = hex_byte y @ toString_hex ys'"
    by (simp add: toString_hex_Cons)
  moreover have "length (hex_byte x) = length (hex_byte y)" by (simp add: hex_byte_def)
  ultimately have "hex_byte x = hex_byte y" "toString_hex xs = toString_hex ys'"
    by simp_all
  then show ?case using ys Cons.IH hex_byte_inj by blast
qed

text \<open>Of the 32 digits of 16 bytes the cut keeps the 16 digits of the first 8 bytes.\<close>

lemma randomBytes_16_split: "randomBytes src 16 = map src [0..<8] @ map src [8..<16]"
proof -
  have "[0..<16] = [0..<8] @ [8..<16]"
    using upt_add_eq_append [of 0 8 8] by simp
  then show ?thesis by (simp add: randomBytes_def)
qed

lemma generateToken_16: "generateToken src 16 = toString_hex (map src [0..<8])"
proof -
  have "length (toString_hex (map src [0..<8])) = 16" by (simp add: length_toString_hex)
  then show ?thesis
    by (simp add: generateToken_take randomBytes_16_split toString_hex_append)
qed

section \<open>The three outcomes of save\<close>

lemmas save_eval = save_def get_prop_def bcrypt_hash_def new_user_def User_create_def
  stored_def email_taken_def sendAccountActivation_def Let_def

lemma get_prop_Cons: "get_prop ((k, v) # obj) k' = (if k = k' then v else get_prop obj k')"
  by (simp add: get_prop_def)

lemma get_prop_new_user:
  "get_prop (new_user u m h t) ''username'' = u"
  "get_prop (new_user u m h t) ''email'' = m"
  "get_prop (new_user u m h t) ''password'' = JStr h"
  "get_prop (new_user u m h t) ''activationToken'' = JStr t"
  "get_prop (new_user u m h t) ''inactive'' = JUndefined"
  by (simp_all add: get_prop_def new_user_def)

lemma stored_JStr: "stored (JStr s) = JStr s"
  by (simp add: stored_def)

text \<open>A password that is not a string: the hash rejects and nothing else happens.\<close>

lemma save_not_string:
  "(\<forall>p. get_prop body ''password'' \<noteq> JStr p) \<Longrightarrow> save e body w = (Inl IllegalArguments, w)"
  by (cases "get_prop body ''password''") (simp_all add: save_def bcrypt_hash_def)

text \<open>An email that is already stored: the store rejects, the dispatcher is not reached.\<close>

lemma save_taken:
  "get_prop body ''password'' = JStr p \<Longrightarrow>
   email_taken (stored (get_prop body ''email'')) (users w) \<Longrightarrow>
   save e body w =
     (Inl UniqueConstraintError,
      w\<lparr>trace := trace w @ [StoreCreate (created_attrs e body p)]\<rparr>)"
  by (simp add: save_def bcrypt_hash_def User_create_def get_prop_new_user created_attrs_def
      Let_def stored_JStr)

text \<open>Otherwise the row is persisted and then the dispatcher is invoked.\<close>

lemma save_created:
  "get_prop body ''password'' = JStr p \<Longrightarrow>
   \<not> email_taken (stored (get_prop body ''email'')) (users w) \<Longrightarrow>
   save e body w =
     (if transport_ok e (sent_message e body) then Inr () else Inl TransportError,
      w\<lparr>users := users w @ [created_row e body p w],
         next_id := Suc (next_id w),
         trace := trace w @ [StoreCreate (created_attrs e body p),
                             Persisted (created_row e body p w),
                             Dispatched (sent_message e body)]\<rparr>)"
  by (simp add: save_def bcrypt_hash_def User_create_def get_prop_new_user created_attrs_def
      Let_def stored_JStr sendAccountActivation_def created_row_def sent_message_def)

lemma save_cases:
  obtains
    (rejected) "\<forall>p. get_prop body ''password'' \<noteq> JStr p"
      "save e body w = (Inl IllegalArguments, w)"
  | (taken) p where "get_prop body ''password'' = JStr p"
      "email_taken (stored (get_prop body ''email'')) (users w)"
      "save e body w =
         (Inl UniqueConstraintError,
          w\<lparr>trace := trace w @ [StoreCreate (created_attrs e body p)]\<rparr>)"
  | (created) p where "get_prop body ''password'' = JStr p"
      "\<not> email_taken (stored (get_prop body ''email'')) (users w)"
      "save e body w =
         (if transport_ok e (sent_message e body) then Inr () else Inl TransportError,
          w\<lparr>users := users w @ [created_row e body p w],
             next_id := Suc (next_id w),
             trace := trace w @ [StoreCreate (created_attrs e body p),
                                 Persisted (created_row e body p w),
                                 Dispatched (sent_message e body)]\<rparr>)"
proof (cases "\<exists>p. get_prop body ''password'' = JStr p")
  case False
  then have "\<forall>p. get_prop body ''password'' \<noteq> JStr p" by simp
  then show ?thesis using rejected save_not_string by blast
next
  case True
  then obtain p where p: "get_prop body ''password'' = JStr p" ..
  show ?thesis
  proof (cases "email_taken (stored (get_prop body ''email'')) (users w)")
    case True
    then show ?thesis using taken [OF p] save_taken [OF p] by blast
  next
    case False
    then show ?thesis using created [OF p] save_created [OF p] by blast
  qed
qed

lemma object_keys_created_attrs:
  "object_keys (created_attrs e body p) = [''username'', ''email'', ''password'', ''activationToken'']"
  by (simp add: object_keys_def created_attrs_def new_user_def)

lemma get_prop_created_attrs:
  "get_prop (created_attrs e body p) ''username'' = get_prop body ''username''"
  "get_prop (created_attrs e body p) ''email'' = get_prop body ''email''"
  "get_prop (created_attrs e body p) ''password'' = JStr (bcrypt e p 10)"
  "get_prop (created_attrs e body p) ''activationToken'' = JStr (generateToken (entropy e) 16)"
  by (simp_all add: created_attrs_def get_prop_new_user)

lemma events_since_same: "events_since w w = []"
  by (simp add: events_since_def)

lemmas token_eval = generateToken_def randomBytes_def toString_hex_def hex_byte_def
  hex_digit_def substring_def upt_rec

section \<open>Registration\<close>

text \<open>
  C1. The claim: when the email dispatch fails after the user record has been
  persisted, the registration service removes the new record, so that the store holds
  no user with that email. \<open>save\<close> has no such step: the error of the dispatcher leaves
  the function and the row stays. Here the valid signup of the test suite is sent to an
  empty store while the mail transport rejects: \<open>save\<close> ends with the transport error
  and the store holds one user with that email. The test "does not save user to
  database if activation email fails" expects none.
\<close>

theorem save_keeps_user_when_mail_fails:
  "fst (save failing_mail_env valid_user empty_world) = Inl TransportError \<and>
   length (filter (\<lambda>r. email_col r = JStr ''user1@example.com'')
             (users (snd (save failing_mail_env valid_user empty_world)))) = 1"
  by (simp add: save_eval failing_mail_env_def example_env_def valid_user_def empty_world_def)

text \<open>
  The same for every request that reaches the dispatcher: whenever the transport
  rejects, the row that was just created is still the last row of the store.
\<close>

lemma save_has_no_rollback:
  assumes "get_prop body ''password'' = JStr p"
    and "\<not> email_taken (stored (get_prop body ''email'')) (users w)"
    and "\<not> transport_ok e (sent_message e body)"
  shows "fst (save e body w) = Inl TransportError"
    and "users (snd (save e body w)) = users w @ [created_row e body p w]"
  using assms by (simp_all add: save_created)

text \<open>
  C3. For every request body, also one that supplies \<open>inactive\<close> (with \<open>false\<close> or any
  other value), the row that \<open>save\<close> persists has \<open>inactive = true\<close>: supplying the field
  changes nothing in what \<open>save\<close> does, and a call of \<open>save\<close> either leaves the rows as
  they were or appends one row whose flag is \<open>true\<close>.
\<close>

theorem save_forces_inactive:
  "save e ((''inactive'', v) # body) w = save e body w \<and>
   (users (snd (save e body w)) = users w \<or>
    (\<exists>r. users (snd (save e body w)) = users w @ [r] \<and> inactive_col r = JBool True))"
proof
  show "save e ((''inactive'', v) # body) w = save e body w"
    by (simp add: save_def get_prop_Cons)
  show "users (snd (save e body w)) = users w \<or>
    (\<exists>r. users (snd (save e body w)) = users w @ [r] \<and> inactive_col r = JBool True)"
    by (cases e body w rule: save_cases) (simp_all add: created_row_def)
qed

theorem save_forces_inactive_witness:
  "inactive_col (last (users (snd (save example_env
      ((''inactive'', JBool False) # valid_user) empty_world)))) = JBool True"
  using save_forces_inactive [of example_env "JBool False" valid_user empty_world]
  by (simp add: save_eval example_env_def valid_user_def empty_world_def)

text \<open>
  C4. The activation token is made from 16 bytes read from the random source, each
  written as two lowercase hexadecimal digits, and cut to 16 characters: these are the
  digits of the first 8 bytes, and two sources give the same token exactly when they
  agree on those bytes. The token is a non-empty string of exactly 16 characters, each
  a digit or a letter from a to f. A call of \<open>save\<close> whose password is a string and
  whose email is not yet stored persists one row, with this token; any other call
  persists nothing.
\<close>

theorem generateToken_16_hex:
  "randomBytes src 16 = map src [0..<16] \<and>
   length (randomBytes src 16) = 16 \<and>
   generateToken src 16 = take 16 (concat (map (\<lambda>i. hex_byte (src i)) [0..<16])) \<and>
   generateToken src 16 = concat (map (\<lambda>i. hex_byte (src i)) [0..<8]) \<and>
   (generateToken src 16 = generateToken src' 16) = (map src [0..<8] = map src' [0..<8]) \<and>
   length (generateToken src 16) = 16 \<and>
   generateToken src 16 \<noteq> [] \<and>
   set (generateToken src 16) \<subseteq> set ''0123456789abcdef'' \<and>
   (if (\<exists>p. get_prop body ''password'' = JStr p) \<and>
       \<not> email_taken (stored (get_prop body ''email'')) (users w)
    then \<exists>r. users (snd (save e body w)) = users w @ [r] \<and>
             activationToken_col r = JStr (generateToken (entropy e) 16)
    else users (snd (save e body w)) = users w)"
proof -
  have bytes: "randomBytes src 16 = map src [0..<16]" by (simp add: randomBytes_def)
  have cut: "generateToken src 16 = take 16 (concat (map (\<lambda>i. hex_byte (src i)) [0..<16]))"
    by (simp add: generateToken_take bytes toString_hex_def comp_def)
  have tok: "generateToken src 16 = concat (map (\<lambda>i. hex_byte (src i)) [0..<8])"
    by (simp add: generateToken_16 toString_hex_def comp_def)
  have inj: "(generateToken src 16 = generateToken src' 16) = (map src [0..<8] = map src' [0..<8])"
  proof
    assume "generateToken src 16 = generateToken src' 16"
    then have "toString_hex (map src [0..<8]) = toString_hex (map src' [0..<8])"
      by (simp only: generateToken_16)
    then show "map src [0..<8] = map src' [0..<8]" by (rule toString_hex_inj)
  next
    assume "map src [0..<8] = map src' [0..<8]"
    then show "generateToken src 16 = generateToken src' 16"
      by (simp only: generateToken_16)
  qed
  have len: "length (generateToken src 16) = 16" by (rule length_generateToken)
  then have ne: "generateToken src 16 \<noteq> []" by auto
  have hex: "set (generateToken src 16) \<subseteq> set ''0123456789abcdef''"
    by (rule set_generateToken)
  have persisted: "if (\<exists>p. get_prop body ''password'' = JStr p) \<and>
       \<not> email_taken (stored (get_prop body ''email'')) (users w)
    then \<exists>r. users (snd (save e body w)) = users w @ [r] \<and>
             activationToken_col r = JStr (generateToken (entropy e) 16)
    else users (snd (save e body w)) = users w"
    by (cases e body w rule: save_cases) (simp_all add: created_row_def)
  show ?thesis
    using bytes cut tok inj len ne hex persisted length_randomBytes [of src 16]
    by (intro conjI)
qed

theorem generateToken_16_hex_witness:
  "generateToken (entropy example_env) 16 = ''abbccddeef001122'' \<and>
   (\<exists>p. get_prop valid_user ''password'' = JStr p) \<and>
   \<not> email_taken (stored (get_prop valid_user ''email'')) (users empty_world) \<and>
   users (snd (save example_env valid_user empty_world)) =
     [created_row example_env valid_user ''Pass1234'' empty_world] \<and>
   activationToken_col (created_row example_env valid_user ''Pass1234'' empty_world) =
     JStr ''abbccddeef001122''"
proof -
  have h1: "\<exists>p. get_prop valid_user ''password'' = JStr p"
    by (simp add: get_prop_def valid_user_def)
  have h2: "\<not> email_taken (stored (get_prop valid_user ''email'')) (users empty_world)"
    by (simp add: email_taken_def empty_world_def)
  have tok: "generateToken (entropy example_env) 16 =
      concat (map (\<lambda>i. hex_byte (entropy example_env i)) [0..<8])"
    using generateToken_16_hex [of "entropy example_env"] by blast
  have val: "concat (map (\<lambda>i. hex_byte (entropy example_env i)) [0..<8]) = ''abbccddeef001122''"
    by (simp add: example_env_def hex_byte_def hex_digit_def upt_rec)
  have "if (\<exists>p. get_prop valid_user ''password'' = JStr p) \<and>
       \<not> email_taken (stored (get_prop valid_user ''email'')) (users empty_world)
    then \<exists>r. users (snd (save example_env valid_user empty_world)) = users empty_world @ [r] \<and>
             activationToken_col r = JStr (generateToken (entropy example_env) 16)
    else users (snd (save example_env valid_user empty_world)) = users empty_world"
    using generateToken_16_hex [of "entropy example_env" "entropy example_env" valid_user
        empty_world example_env]
    by (elim conjE)
  then have "\<exists>r. users (snd (save example_env valid_user empty_world)) = users empty_world @ [r] \<and>
      activationToken_col r = JStr (generateToken (entropy example_env) 16)"
    by (simp only: h1 h2 simp_thms if_True)
  then show ?thesis using h1 h2 tok val
    by (simp add: save_eval example_env_def valid_user_def empty_world_def created_row_def)
qed

text \<open>
  C5. For a registration with plaintext password \<open>p\<close>, the password column of the row
  \<open>save\<close> persists is \<open>bcrypt.hash(p, 10)\<close>, the salted hash with cost factor 10, and it
  is not \<open>p\<close>. The hash is the library's, a parameter here; that it does not return its
  input is the library's part and is the second hypothesis.
\<close>

theorem save_stores_bcrypt_hash:
  assumes "get_prop body ''password'' = JStr p" and "bcrypt e p 10 \<noteq> p"
  shows "users (snd (save e body w)) = users w \<or>
    (\<exists>r. users (snd (save e body w)) = users w @ [r] \<and>
         password_col r = JStr (bcrypt e p 10) \<and> password_col r \<noteq> JStr p)"
proof (cases "email_taken (stored (get_prop body ''email'')) (users w)")
  case True
  then show ?thesis using assms(1) by (simp add: save_taken)
next
  case False
  then show ?thesis using assms by (simp add: save_created created_row_def)
qed

theorem save_stores_bcrypt_hash_witness:
  "get_prop valid_user ''password'' = JStr ''Pass1234'' \<and>
   bcrypt example_env ''Pass1234'' 10 \<noteq> ''Pass1234'' \<and>
   password_col (last (users (snd (save example_env valid_user empty_world)))) =
     JStr ''$2a$10$Pass1234''"
proof -
  have h1: "get_prop valid_user ''password'' = JStr ''Pass1234''"
    by (simp add: get_prop_def valid_user_def)
  have h2: "bcrypt example_env ''Pass1234'' 10 \<noteq> ''Pass1234''"
    by (simp add: example_env_def)
  show ?thesis
    using h1 h2 save_stores_bcrypt_hash [OF h1 h2, of empty_world]
    by (simp add: save_eval example_env_def valid_user_def empty_world_def)
qed

text \<open>
  C6, as stated: in every execution of \<open>save\<close> the dispatcher is invoked exactly once,
  after the row was persisted. It fails when the store rejects the row: the valid
  signup sent a second time finds its email stored, \<open>User.create\<close> rejects, \<open>save\<close>
  leaves with that error, nothing is persisted and the dispatcher is not invoked.
\<close>

theorem save_dispatch_counterexample:
  "fst (save example_env valid_user registered_world) = Inl UniqueConstraintError \<and>
   users (snd (save example_env valid_user registered_world)) = users registered_world \<and>
   dispatches (events_since registered_world
     (snd (save example_env valid_user registered_world))) = []"
  by (simp add: registered_world_def save_eval example_env_def valid_user_def empty_world_def
      events_since_def)

text \<open>
  C6, amended. In every execution in which the password is a string and the email is
  not yet stored, the new events are exactly: the object is handed to the store, the
  row is persisted, the dispatcher is invoked; the dispatcher is invoked once, with the
  email of the body, which is the email persisted, and with the token persisted, which
  the message carries. In every other execution no row is persisted and the dispatcher
  is not invoked.
\<close>

theorem save_persists_then_dispatches_once:
  "(\<exists>p attrs r m.
      get_prop body ''password'' = JStr p \<and>
      \<not> email_taken (stored (get_prop body ''email'')) (users w) \<and>
      events_since w (snd (save e body w)) = [StoreCreate attrs, Persisted r, Dispatched m] \<and>
      users (snd (save e body w)) = users w @ [r] \<and>
      dispatches (events_since w (snd (save e body w))) = [m] \<and>
      recipient m = get_prop body ''email'' \<and>
      email_col r = stored (recipient m) \<and>
      carried_token m = activationToken_col r) \<or>
   (((\<forall>p. get_prop body ''password'' \<noteq> JStr p) \<or>
     email_taken (stored (get_prop body ''email'')) (users w)) \<and>
    users (snd (save e body w)) = users w \<and>
    dispatches (events_since w (snd (save e body w))) = [])"
proof (cases e body w rule: save_cases)
  case rejected
  then show ?thesis by (simp add: events_since_same)
next
  case (taken p)
  then show ?thesis by (simp add: events_since_def)
next
  case (created p)
  have "events_since w (snd (save e body w)) =
      [StoreCreate (created_attrs e body p), Persisted (created_row e body p w),
       Dispatched (sent_message e body)]"
    using created(3) by (simp add: events_since_def)
  moreover have "users (snd (save e body w)) = users w @ [created_row e body p w]"
    using created(3) by simp
  moreover have "recipient (sent_message e body) = get_prop body ''email''"
    "email_col (created_row e body p w) = stored (recipient (sent_message e body))"
    "carried_token (sent_message e body) = activationToken_col (created_row e body p w)"
    by (simp_all add: sent_message_def created_row_def)
  ultimately show ?thesis using created(1,2) by auto
qed

theorem save_persists_then_dispatches_once_witness:
  "events_since empty_world (snd (save example_env valid_user empty_world)) =
     [StoreCreate (created_attrs example_env valid_user ''Pass1234''),
      Persisted (created_row example_env valid_user ''Pass1234'' empty_world),
      Dispatched \<lparr>recipient = JStr ''user1@example.com'',
                  carried_token = JStr ''abbccddeef001122''\<rparr>]"
  using save_persists_then_dispatches_once [of valid_user empty_world example_env]
  by (simp add: save_eval example_env_def valid_user_def empty_world_def events_since_def
      created_attrs_def created_row_def token_eval)

text \<open>
  C10. For every request body, \<open>save\<close> does what it does on the body cut down to
  username, email and password, so no other property supplied by the client has any
  effect. The object handed to the store has exactly the keys username, email,
  password and activationToken, in that order, with the username and email of the
  body, the hash of the body's password and the freshly generated token; the row
  persisted carries that token and the id the store assigns.
\<close>

theorem save_hands_store_four_fields:
  "save e body w = save e (strip_body body) w \<and>
   (events_since w (snd (save e body w)) = [] \<or>
    (\<exists>p attrs rest.
       events_since w (snd (save e body w)) = StoreCreate attrs # rest \<and>
       object_keys attrs = [''username'', ''email'', ''password'', ''activationToken''] \<and>
       get_prop attrs ''username'' = get_prop body ''username'' \<and>
       get_prop attrs ''email'' = get_prop body ''email'' \<and>
       get_prop body ''password'' = JStr p \<and>
       get_prop attrs ''password'' = JStr (bcrypt e p 10) \<and>
       get_prop attrs ''activationToken'' = JStr (generateToken (entropy e) 16) \<and>
       (rest = [] \<or>
        (\<exists>r m. rest = [Persisted r, Dispatched m] \<and>
               users (snd (save e body w)) = users w @ [r] \<and>
               id_col r = next_id w \<and>
               activationToken_col r = JStr (generateToken (entropy e) 16)))))"
proof
  show "save e body w = save e (strip_body body) w"
    by (simp add: save_def strip_body_def get_prop_Cons)
  show "events_since w (snd (save e body w)) = [] \<or>
    (\<exists>p attrs rest.
       events_since w (snd (save e body w)) = StoreCreate attrs # rest \<and>
       object_keys attrs = [''username'', ''email'', ''password'', ''activationToken''] \<and>
       get_prop attrs ''username'' = get_prop body ''username'' \<and>
       get_prop attrs ''email'' = get_prop body ''email'' \<and>
       get_prop body ''password'' = JStr p \<and>
       get_prop attrs ''password'' = JStr (bcrypt e p 10) \<and>
       get_prop attrs ''activationToken'' = JStr (generateToken (entropy e) 16) \<and>
       (rest = [] \<or>
        (\<exists>r m. rest = [Persisted r, Dispatched m] \<and>
               users (snd (save e body w)) = users w @ [r] \<and>
               id_col r = next_id w \<and>
               activationToken_col r = JStr (generateToken (entropy e) 16))))"
  proof (cases e body w rule: save_cases)
    case rejected
    then show ?thesis by (simp add: events_since_def)
  next
    case (taken p)
    then show ?thesis
      by (simp add: events_since_def object_keys_created_attrs get_prop_created_attrs)
  next
    case (created p)
    have "id_col (created_row e body p w) = next_id w"
      "activationToken_col (created_row e body p w) = JStr (generateToken (entropy e) 16)"
      by (simp_all add: created_row_def)
    then show ?thesis using created
      by (simp add: events_since_def object_keys_created_attrs get_prop_created_attrs)
  qed
qed

theorem save_hands_store_four_fields_witness:
  "save example_env tampered_user empty_world = save example_env valid_user empty_world \<and>
   activationToken_col (last (users (snd (save example_env tampered_user empty_world)))) =
     JStr ''abbccddeef001122'' \<and>
   id_col (last (users (snd (save example_env tampered_user empty_world)))) = 1"
proof -
  have "strip_body tampered_user = valid_user"
    by (simp add: strip_body_def tampered_user_def valid_user_def get_prop_def)
  then have "save example_env tampered_user empty_world = save example_env valid_user empty_world"
    using save_hands_store_four_fields [of example_env tampered_user empty_world] by simp
  then show ?thesis
    by (simp add: save_eval example_env_def valid_user_def empty_world_def
        token_eval)
qed

section \<open>Activation\<close>

text \<open>The stores of the concrete requests, written out.\<close>

lemma registered_world_eq:
  "registered_world =
     \<lparr>users = [\<lparr>id_col = 1, username_col = JStr ''user1'',
                email_col = JStr ''user1@example.com'',
                password_col = JStr ''$2a$10$Pass1234'',
                inactive_col = JBool True,
                activationToken_col = JStr ''abbccddeef001122''\<rparr>],
      next_id = 2,
      trace = [StoreCreate (created_attrs example_env valid_user ''Pass1234''),
               Persisted (created_row example_env valid_user ''Pass1234'' empty_world),
               Dispatched (sent_message example_env valid_user)]\<rparr>"
  by (simp add: registered_world_def save_eval example_env_def valid_user_def empty_world_def
      created_attrs_def created_row_def sent_message_def token_eval)

lemma users_registered_world:
  "users registered_world =
     [\<lparr>id_col = 1, username_col = JStr ''user1'',
       email_col = JStr ''user1@example.com'',
       password_col = JStr ''$2a$10$Pass1234'',
       inactive_col = JBool True,
       activationToken_col = JStr ''abbccddeef001122''\<rparr>]"
  by (simp add: registered_world_eq)

text \<open>
  The lookup finds nothing exactly when no row holds the token; otherwise it changes the
  first row that holds it and no other.
\<close>

lemma activate_first_None:
  "\<not> list_ex (holds_token t) us \<Longrightarrow> activate_first t us = None"
  by (induction us) simp_all

lemma activate_first_Some:
  "list_ex (holds_token t) us \<Longrightarrow>
   \<exists>xs u ys. us = xs @ u # ys \<and> \<not> list_ex (holds_token t) xs \<and> holds_token t u \<and>
     activate_first t us = Some (xs @ activated u # ys)"
proof (induction us)
  case Nil
  then show ?case by simp
next
  case (Cons a us)
  show ?case
  proof (cases "holds_token t a")
    case True
    then have "a # us = [] @ a # us \<and> \<not> list_ex (holds_token t) [] \<and> holds_token t a \<and>
      activate_first t (a # us) = Some ([] @ activated a # us)"
      by simp
    then show ?thesis by blast
  next
    case False
    with Cons.prems have "list_ex (holds_token t) us" by simp
    from Cons.IH [OF this] obtain xs u ys where
      *: "us = xs @ u # ys" "\<not> list_ex (holds_token t) xs" "holds_token t u"
         "activate_first t us = Some (xs @ activated u # ys)"
      by blast
    from False * have "a # us = (a # xs) @ u # ys \<and> \<not> list_ex (holds_token t) (a # xs) \<and>
      holds_token t u \<and> activate_first t (a # us) = Some ((a # xs) @ activated u # ys)"
      by simp
    then show ?thesis by blast
  qed
qed


lemma handler_unknown:
  "\<not> list_ex (holds_token t) (users w) \<Longrightarrow>
   activation_handler tr now t w = (invalid_token_response tr now t, w)"
  by (simp add: activation_handler_def activate_def activate_first_None)

lemma handler_known:
  assumes "list_ex (holds_token t) (users w)"
  shows "\<exists>xs u ys. users w = xs @ u # ys \<and> \<not> list_ex (holds_token t) xs \<and> holds_token t u \<and>
     activation_handler tr now t w = (activated_response tr, w\<lparr>users := xs @ activated u # ys\<rparr>)"
proof -
  from activate_first_Some [OF assms] obtain xs u ys where
    *: "users w = xs @ u # ys" "\<not> list_ex (holds_token t) xs" "holds_token t u"
       "activate_first t (users w) = Some (xs @ activated u # ys)"
    by blast
  then have "activation_handler tr now t w = (activated_response tr, w\<lparr>users := xs @ activated u # ys\<rparr>)"
    by (simp add: activation_handler_def activate_def)
  with * show ?thesis by blast
qed




text \<open>
  C9. For every store and every presented token that no user holds, the activation
  request leaves the store unchanged and answers with status 400 and a body of path,
  timestamp and the one generic message. The answer is made from the catalog, the time
  and the token alone: two stores in which the token matches nothing, one where it never
  existed and one where the account is already active, get the same answer.
\<close>

theorem unknown_token_leaves_store:
  assumes "\<not> list_ex (holds_token t) (users w)"
    and "\<not> list_ex (holds_token t) (users w')"
  shows "activation_handler tr now t w = (invalid_token_response tr now t, w) \<and>
    status_code (invalid_token_response tr now t) = 400 \<and>
    object_keys (json (invalid_token_response tr now t)) = [''path'', ''timestamp'', ''message''] \<and>
    get_prop (json (invalid_token_response tr now t)) ''message'' = JStr (tr account_activation_failure) \<and>
    fst (activation_handler tr now t w') = fst (activation_handler tr now t w)"
  using assms
  by (simp add: handler_unknown)
     (simp add: invalid_token_response_def error_body_def object_keys_def get_prop_def)

theorem unknown_token_leaves_store_witness:
  "\<not> list_ex (holds_token ''this-token-does-not-exist'') (users registered_world) \<and>
   \<not> list_ex (holds_token ''this-token-does-not-exist'') (users activated_world) \<and>
   activation_handler en 5 ''this-token-does-not-exist'' registered_world =
     (\<lparr>status_code = 400,
       json = [(''path'', JStr ''/api/1.0/users/token/this-token-does-not-exist''),
               (''timestamp'', JNum 5),
               (''message'', JStr ''This account is either active or the token is invalid'')]\<rparr>,
      registered_world) \<and>
   fst (activation_handler en 5 ''this-token-does-not-exist'' activated_world) =
     fst (activation_handler en 5 ''this-token-does-not-exist'' registered_world)"
proof -
  have h1: "\<not> list_ex (holds_token ''this-token-does-not-exist'') (users registered_world)"
    by (simp add: users_registered_world holds_token_def)
  have h2: "\<not> list_ex (holds_token ''this-token-does-not-exist'') (users activated_world)"
    by (simp add: activated_world_def activation_handler_def activate_def users_registered_world
        holds_token_def activated_def)
  show ?thesis
    using h1 h2 unknown_token_leaves_store [OF h1 h2, of en 5]
    by (simp add: invalid_token_response_def error_body_def en_def)
qed

section \<open>The two states of a user\<close>

lemma pending_created_row: "pending (created_row e body p w)"
proof -
  have "length (generateToken (entropy e) 16) = 16" by (rule length_generateToken)
  then have "generateToken (entropy e) 16 \<noteq> []" by auto
  then show ?thesis by (simp add: pending_def created_row_def)
qed

lemma pending_not_active: "pending u \<Longrightarrow> \<not> active u"
  by (simp add: pending_def active_def)

lemma active_activated: "active (activated u)"
  by (simp add: active_def activated_def)

lemma store_inv_empty: "store_inv empty_world"
  by (simp add: store_inv_def empty_world_def)

lemma save_appends_pending:
  "users (snd (save e body w)) = users w \<or>
   (\<exists>r. users (snd (save e body w)) = users w @ [r] \<and> pending r)"
  by (cases e body w rule: save_cases) (simp_all add: pending_created_row)

lemma store_inv_save: "store_inv w \<Longrightarrow> store_inv (snd (save e body w))"
proof -
  assume inv: "store_inv w"
  from save_appends_pending [of e body w] show ?thesis
  proof
    assume "users (snd (save e body w)) = users w"
    with inv show ?thesis by (simp add: store_inv_def)
  next
    assume "\<exists>r. users (snd (save e body w)) = users w @ [r] \<and> pending r"
    then obtain r where r: "users (snd (save e body w)) = users w @ [r]" "pending r"
      by blast
    from r(2) have "pending r = (\<not> active r)" using pending_not_active by blast
    with inv r(1) show ?thesis by (simp add: store_inv_def)
  qed
qed

lemma handler_moves_to_active:
  "users (snd (activation_handler tr now t w)) = users w \<or>
   (\<exists>xs u ys. users w = xs @ u # ys \<and> holds_token t u \<and>
      users (snd (activation_handler tr now t w)) = xs @ activated u # ys \<and>
      active (activated u))"
proof (cases "list_ex (holds_token t) (users w)")
  case False
  then show ?thesis by (simp add: handler_unknown)
next
  case True
  from handler_known [OF this, of tr now] obtain xs u ys where
    "users w = xs @ u # ys" "holds_token t u"
    "activation_handler tr now t w = (activated_response tr, w\<lparr>users := xs @ activated u # ys\<rparr>)"
    by blast
  then have "users w = xs @ u # ys \<and> holds_token t u \<and>
      users (snd (activation_handler tr now t w)) = xs @ activated u # ys \<and>
      active (activated u)"
    by (simp add: active_activated)
  then show ?thesis by blast
qed

lemma store_inv_activation:
  assumes inv: "store_inv w"
  shows "store_inv (snd (activation_handler tr now t w))"
proof -
  from handler_moves_to_active [of tr now t w] show ?thesis
  proof
    assume "users (snd (activation_handler tr now t w)) = users w"
    with inv show ?thesis by (simp add: store_inv_def)
  next
    assume "\<exists>xs u ys. users w = xs @ u # ys \<and> holds_token t u \<and>
      users (snd (activation_handler tr now t w)) = xs @ activated u # ys \<and>
      active (activated u)"
    then obtain xs u ys where *: "users w = xs @ u # ys"
      "users (snd (activation_handler tr now t w)) = xs @ activated u # ys"
      "active (activated u)"
      by blast
    from *(3) have "pending (activated u) = (\<not> active (activated u))"
      using pending_not_active by blast
    with inv * show ?thesis by (simp add: store_inv_def)
  qed
qed

lemma reachable_store_inv: "reachable w \<Longrightarrow> store_inv w"
  by (induction rule: reachable.induct)
     (simp_all add: store_inv_empty store_inv_save store_inv_activation)

text \<open>
  C2. In every reachable store every user is in exactly one of two states: pending,
  \<open>inactive = true\<close> with a non-empty token, or active, \<open>inactive = false\<close> with an
  empty or absent token. The empty store satisfies this, a registration preserves it
  and adds at most one row, a pending one, and an activation request preserves it and
  changes at most one row, into an active one.
\<close>

theorem user_is_pending_or_active:
  "(reachable w \<longrightarrow> store_inv w) \<and>
   store_inv empty_world \<and>
   (store_inv w \<longrightarrow> store_inv (snd (save e body w))) \<and>
   (store_inv w \<longrightarrow> store_inv (snd (activation_handler tr now t w))) \<and>
   (users (snd (save e body w)) = users w \<or>
    (\<exists>r. users (snd (save e body w)) = users w @ [r] \<and> pending r)) \<and>
   (users (snd (activation_handler tr now t w)) = users w \<or>
    (\<exists>xs u ys. users w = xs @ u # ys \<and> holds_token t u \<and>
       users (snd (activation_handler tr now t w)) = xs @ activated u # ys \<and>
       active (activated u)))"
  using reachable_store_inv store_inv_empty store_inv_save store_inv_activation
    save_appends_pending [of e body w] handler_moves_to_active [of tr now t w]
  by blast

theorem user_is_pending_or_active_witness:
  "reachable activated_world \<and> store_inv activated_world \<and>
   store_inv registered_world \<and>
   list_all pending (users registered_world) \<and>
   list_all active (users activated_world)"
proof -
  have r1: "reachable registered_world"
    unfolding registered_world_def by (rule reachable.registration [OF reachable.init])
  have r2: "reachable activated_world"
    unfolding activated_world_def by (rule reachable.activation [OF r1])
  have "store_inv activated_world"
    using r2 user_is_pending_or_active [of activated_world] by blast
  moreover have "store_inv registered_world"
    using r1 user_is_pending_or_active [of registered_world] by blast
  moreover have "list_all pending (users registered_world)"
    by (simp add: users_registered_world pending_def)
  moreover have "list_all active (users activated_world)"
    by (simp add: activated_world_def activation_handler_def activate_def users_registered_world
        holds_token_def activated_def active_def)
  ultimately show ?thesis using r2 by blast
qed

section \<open>Validation\<close>

lemma violations_append: "violations (xs @ ys) = violations xs @ violations ys"
  by (simp add: violations_def)

text \<open>Violations of one field add its key once, at the end, unless it is there already.\<close>

lemma keys_foldl_add_error:
  "\<forall>v\<in>set vs. fst v = f \<Longrightarrow>
   object_keys (foldl add_error m vs) =
     (if vs = [] \<or> f \<in> set (object_keys m) then object_keys m else object_keys m @ [f])"
proof (induction vs arbitrary: m)
  case Nil
  then show ?case by simp
next
  case (Cons v vs)
  then have v: "fst v = f" and rest: "\<forall>v\<in>set vs. fst v = f" by simp_all
  show ?case
  proof (cases "f \<in> set (object_keys m)")
    case True
    then have "add_error m v = m" using v by (simp add: add_error_def)
    then show ?thesis using Cons.IH [OF rest, of m] True by simp
  next
    case False
    then have step: "add_error m v = m @ [v]" using v by (simp add: add_error_def)
    have "f \<in> set (object_keys (m @ [v]))" using v by (simp add: object_keys_def)
    then have "object_keys (foldl add_error (m @ [v]) vs) = object_keys (m @ [v])"
      using Cons.IH [OF rest, of "m @ [v]"] by simp
    then show ?thesis using step False v by (simp add: object_keys_def)
  qed
qed

lemma violations_one_field:
  "\<forall>r\<in>set rs. fst r = f \<Longrightarrow> \<forall>v\<in>set (violations rs). fst v = f"
  by (auto simp add: violations_def)

lemma violations_empty: "(violations rs = []) = (\<not> list_ex (\<lambda>(f, k, bad). bad) rs)"
  by (auto simp add: violations_def list_ex_iff filter_empty_conv)

lemma keys_of_three_fields:
  assumes u: "\<forall>r\<in>set us. fst r = ''username''"
    and e: "\<forall>r\<in>set es. fst r = ''email''"
    and p: "\<forall>r\<in>set ps. fst r = ''password''"
  shows "object_keys (foldl add_error [] (violations (us @ es @ ps))) =
    (if list_ex (\<lambda>(f, k, bad). bad) us then [''username''] else []) @
    (if list_ex (\<lambda>(f, k, bad). bad) es then [''email''] else []) @
    (if list_ex (\<lambda>(f, k, bad). bad) ps then [''password''] else [])"
proof -
  let ?m1 = "foldl add_error [] (violations us)"
  let ?m2 = "foldl add_error ?m1 (violations es)"
  let ?m3 = "foldl add_error ?m2 (violations ps)"
  have k1: "object_keys ?m1 = (if list_ex (\<lambda>(f, k, bad). bad) us then [''username''] else [])"
    using keys_foldl_add_error [OF violations_one_field [OF u], of "[]"]
    by (simp add: violations_empty object_keys_def)
  have k2: "object_keys ?m2 = object_keys ?m1 @
      (if list_ex (\<lambda>(f, k, bad). bad) es then [''email''] else [])"
    using keys_foldl_add_error [OF violations_one_field [OF e], of ?m1] k1
    by (simp add: violations_empty)
  have k3: "object_keys ?m3 = object_keys ?m2 @
      (if list_ex (\<lambda>(f, k, bad). bad) ps then [''password''] else [])"
    using keys_foldl_add_error [OF violations_one_field [OF p], of ?m2] k1 k2
    by (simp add: violations_empty)
  have "foldl add_error [] (violations (us @ es @ ps)) = ?m3"
    by (simp add: violations_append)
  then show ?thesis using k1 k2 k3 by simp
qed

lemma rules_grouped:
  "rules ok w p = take 2 (rules ok w p) @ take 3 (drop 2 (rules ok w p)) @ drop 5 (rules ok w p)"
  by (simp add: rules_def)

lemma keys_validationErrors:
  "object_keys (validationErrors ok w p) =
     filter (field_violated ok w p) [''username'', ''email'', ''password'']"
proof -
  have "object_keys (foldl add_error []
          (violations (take 2 (rules ok w p) @ take 3 (drop 2 (rules ok w p)) @ drop 5 (rules ok w p)))) =
    (if list_ex (\<lambda>(f, k, bad). bad) (take 2 (rules ok w p)) then [''username''] else []) @
    (if list_ex (\<lambda>(f, k, bad). bad) (take 3 (drop 2 (rules ok w p))) then [''email''] else []) @
    (if list_ex (\<lambda>(f, k, bad). bad) (drop 5 (rules ok w p)) then [''password''] else [])"
    by (rule keys_of_three_fields) (simp_all add: rules_def)
  then have "object_keys (validationErrors ok w p) =
    (if list_ex (\<lambda>(f, k, bad). bad) (take 2 (rules ok w p)) then [''username''] else []) @
    (if list_ex (\<lambda>(f, k, bad). bad) (take 3 (drop 2 (rules ok w p))) then [''email''] else []) @
    (if list_ex (\<lambda>(f, k, bad). bad) (drop 5 (rules ok w p)) then [''password''] else [])"
    using rules_grouped [of ok w p] by (simp add: validationErrors_def)
  also have "\<dots> = filter (field_violated ok w p) [''username'', ''email'', ''password'']"
    by (simp add: field_violated_def rules_def)
  finally show ?thesis .
qed

text \<open>
  C7. For every creation payload all rules are evaluated, and the keys of the
  validation errors are exactly the fields with a violated rule, in the order username,
  email, password. In particular a payload that violates a username rule and an email
  rule has username, email as its first two keys, in that order, followed by password
  only when a password rule is violated too.
\<close>

theorem validation_keys_in_rule_order:
  "object_keys (validationErrors ok w p) =
     filter (field_violated ok w p) [''username'', ''email'', ''password''] \<and>
   (field_violated ok w p ''username'' \<and> field_violated ok w p ''email'' \<longrightarrow>
    take 2 (object_keys (validationErrors ok w p)) = [''username'', ''email''] \<and>
    object_keys (validationErrors ok w p) =
      ''username'' # ''email'' #
      (if field_violated ok w p ''password'' then [''password''] else []))"
proof -
  have keys: "object_keys (validationErrors ok w p) =
      filter (field_violated ok w p) [''username'', ''email'', ''password'']"
    by (rule keys_validationErrors)
  then have "take 2 (object_keys (validationErrors ok w p)) = [''username'', ''email''] \<and>
      object_keys (validationErrors ok w p) =
        ''username'' # ''email'' #
        (if field_violated ok w p ''password'' then [''password''] else [])"
    if "field_violated ok w p ''username''" "field_violated ok w p ''email''"
    using that by simp
  with keys show ?thesis by blast
qed

theorem validation_keys_in_rule_order_witness:
  "field_violated simple_address empty_world null_name_and_email ''username'' \<and>
   field_violated simple_address empty_world null_name_and_email ''email'' \<and>
   object_keys (validationErrors simple_address empty_world null_name_and_email) =
     [''username'', ''email'']"
proof -
  have h: "field_violated simple_address empty_world null_name_and_email ''username''"
    "field_violated simple_address empty_world null_name_and_email ''email''"
    "\<not> field_violated simple_address empty_world null_name_and_email ''password''"
    by (simp_all add: field_violated_def rules_def null_name_and_email_def missing_def fails_def
        password_mix_def)
  show ?thesis
    using h validation_keys_in_rule_order [of simple_address empty_world null_name_and_email]
    by simp
qed

end
